theory Spec2Isabelle
  imports Main
begin

section \<open>The world app.py runs in\<close>

text \<open>
  app.py is glue over the operating system, Flask, Werkzeug and Jinja2. The part of the
  world it can observe is collected in one record, so that every read of the code is a
  read of a field:
  \<^item> \<open>root_path\<close>: the directory of app.py (Flask's \<open>app.root_path\<close>, an absolute
    path);
  \<^item> \<open>fs\<close>: what the operating system finds at a path string (it resolves dots and
    links itself, so two spellings of a location are two arguments of \<open>fs\<close>);
  \<^item> \<open>environ\<close>: the process environment;
  \<^item> \<open>mimetypes\<close>: the content type that \<open>mimetypes.guess_type\<close> gives a file name;
  \<^item> \<open>jinja\<close>: Jinja2 rendering as it goes for the request being answered, from the
    application, the path of the request and the template source to the output
    (\<open>None\<close> when rendering raises). A template may draw on more than these three (the
    query string, headers and cookies of the request, a random filter), which is why
    the renderer is a part of the world: two requests for one path may meet two
    renderers;
  \<^item> \<open>port_free\<close>: whether a listener can be bound to a host and port.
\<close>

type_synonym path = string
type_synonym bytes = string

datatype node = File bytes | Dir

text \<open>What app.py sets and reads of the Flask application object.\<close>

record flask_app =
  static_folder :: path
  template_folder :: path
  secret_key :: "string option"

record world =
  root_path :: path
  fs :: "path \<Rightarrow> node option"
  environ :: "string \<Rightarrow> string option"
  mimetypes :: "string \<Rightarrow> string option"
  jinja :: "flask_app \<Rightarrow> path \<Rightarrow> bytes \<Rightarrow> bytes option"
  port_free :: "string \<Rightarrow> nat \<Rightarrow> bool"

text \<open>A response of the framework, and the exceptions that end a request without one.\<close>

record response =
  status :: nat
  body :: bytes
  mimetype :: string

datatype http_error = NotFound | MethodNotAllowed | TemplateNotFound | TemplateError | ReadError

type_synonym result = "http_error + response"

fun status_of :: "result \<Rightarrow> nat" where
  "status_of (Inl NotFound) = 404"
| "status_of (Inl MethodNotAllowed) = 405"
| "status_of (Inl TemplateNotFound) = 500"
| "status_of (Inl TemplateError) = 500"
| "status_of (Inl ReadError) = 500"
| "status_of (Inr r) = status r"

section \<open>Library calls used by app.py\<close>

text \<open>
  The functions below are not code of the repository: they are the calls app.py makes,
  written out from the behaviour CPython, Werkzeug, Flask and Jinja2 document for them.
  A call that looks at the file system takes the world and returns it with its value, so
  that a call that only reads is seen to leave the world as it was.
\<close>

subsection \<open>str and posixpath\<close>

definition startswith :: "string \<Rightarrow> string \<Rightarrow> bool" where
  "startswith s pre = (take (length pre) s = pre)"

text \<open>\<open>s.split('/')\<close>: never the empty list.\<close>

fun split_slash :: "string \<Rightarrow> string list" where
  "split_slash [] = [[]]"
| "split_slash (c # cs) =
     (if c = CHR ''/'' then [] # split_slash cs
      else (case split_slash cs of
              [] \<Rightarrow> [[c]]
            | x # xs \<Rightarrow> (c # x) # xs))"

text \<open>\<open>'/'.join(comps)\<close>\<close>

fun join_slash :: "string list \<Rightarrow> string" where
  "join_slash [] = []"
| "join_slash [x] = x"
| "join_slash (x # y # ys) = x @ ''/'' @ join_slash (y # ys)"

text \<open>
  The loop of \<open>posixpath.normpath\<close> over the components, \<open>new_comps\<close> being the list
  it appends to and pops from:
  \<^verbatim>\<open>
    for comp in comps:
        if comp in ('', '.'): continue
        if (comp != '..' or (not initial_slashes and not new_comps) or
             (new_comps and new_comps[-1] == '..')):
            new_comps.append(comp)
        elif new_comps:
            new_comps.pop()
  \<close>
\<close>

fun normpath_loop :: "nat \<Rightarrow> string list \<Rightarrow> string list \<Rightarrow> string list" where
  "normpath_loop initial_slashes new_comps [] = new_comps"
| "normpath_loop initial_slashes new_comps (cmp # comps) =
     (if cmp = [] \<or> cmp = ''.'' then normpath_loop initial_slashes new_comps comps
      else if cmp \<noteq> ''..'' \<or> (initial_slashes = 0 \<and> new_comps = [])
                \<or> (new_comps \<noteq> [] \<and> last new_comps = ''..'')
           then normpath_loop initial_slashes (new_comps @ [cmp]) comps
      else if new_comps \<noteq> [] then normpath_loop initial_slashes (butlast new_comps) comps
      else normpath_loop initial_slashes new_comps comps)"

definition posixpath_normpath :: "path \<Rightarrow> path" where
  "posixpath_normpath p =
     (if p = [] then ''.''
      else
        (let initial_slashes =
               (if startswith p ''//'' \<and> \<not> startswith p ''///'' then 2
                else if startswith p ''/'' then 1 else (0::nat));
             comps = normpath_loop initial_slashes [] (split_slash p);
             q = replicate initial_slashes CHR ''/'' @ join_slash comps
         in if q = [] then ''.'' else q))"

definition posixpath_join :: "path \<Rightarrow> path \<Rightarrow> path" where
  "posixpath_join a b =
     (if startswith b ''/'' then b
      else if a = [] \<or> last a = CHR ''/'' then a @ b
      else a @ ''/'' @ b)"

definition posixpath_basename :: "path \<Rightarrow> string" where
  "posixpath_basename p = rev (takeWhile (\<lambda>c. c \<noteq> CHR ''/'') (rev p))"

subsection \<open>os.path and os.environ\<close>

definition os_path_exists :: "path \<Rightarrow> world \<Rightarrow> bool \<times> world" where
  "os_path_exists p w = (fs w p \<noteq> None, w)"

definition os_path_isfile :: "path \<Rightarrow> world \<Rightarrow> bool \<times> world" where
  "os_path_isfile p w = ((case fs w p of Some (File b) \<Rightarrow> True | _ \<Rightarrow> False), w)"

text \<open>
  What start-up does to the process's surroundings: a read of an environment variable,
  an attempt to bind a listener.
\<close>

datatype effect = EnvGet string | Bind string nat

definition os_environ_get :: "string \<Rightarrow> world \<Rightarrow> string option \<times> effect list" where
  "os_environ_get k w = (environ w k, [EnvGet k])"

subsection \<open>Werkzeug: safe_join, send_file, send_from_directory\<close>

text \<open>
  \<open>safe_join\<close> normalises the untrusted file name and refuses (\<open>None\<close>) one that is
  absolute or that climbs out of the directory.
\<close>

definition safe_join :: "path \<Rightarrow> path \<Rightarrow> path option" where
  "safe_join directory filename =
     (let directory = (if directory = [] then ''.'' else directory);
          filename = (if filename \<noteq> [] then posixpath_normpath filename else filename)
      in if startswith filename ''/'' \<or> filename = ''..'' \<or> startswith filename ''../''
         then None
         else Some (posixpath_join directory filename))"

text \<open>
  \<open>send_file\<close>, for a request without conditional or range headers, answers 200 with
  the bytes of the file; the content type is guessed from the file's name,
  \<open>application/octet-stream\<close> when the guess fails.
\<close>

definition send_file :: "path \<Rightarrow> world \<Rightarrow> result \<times> world" where
  "send_file f w =
     (case fs w f of
        Some (File b) \<Rightarrow>
          (Inr \<lparr>status = 200, body = b,
                mimetype = (case mimetypes w (posixpath_basename f) of
                              None \<Rightarrow> ''application/octet-stream''
                            | Some t \<Rightarrow> t)\<rparr>, w)
      | _ \<Rightarrow> (Inl ReadError, w))"

text \<open>
  \<open>send_from_directory\<close> raises NotFound when \<open>safe_join\<close> refuses the path and when
  the joined path is not a regular file.
\<close>

definition send_from_directory :: "path \<Rightarrow> path \<Rightarrow> world \<Rightarrow> result \<times> world" where
  "send_from_directory directory p w =
     (case safe_join directory p of
        None \<Rightarrow> (Inl NotFound, w)
      | Some f \<Rightarrow>
          (let (isfile, w1) = os_path_isfile f w
           in if \<not> isfile then (Inl NotFound, w1) else send_file f w1))"

subsection \<open>Flask: the application object, render_template\<close>

text \<open>
  \<open>Flask(__name__, static_folder=..., template_folder=...)\<close>: the folders are joined
  to the root path; nothing is read from the file system.
\<close>

definition Flask :: "world \<Rightarrow> path \<Rightarrow> path \<Rightarrow> flask_app" where
  "Flask w sf tf =
     \<lparr>static_folder = posixpath_join (root_path w) sf,
      template_folder = posixpath_join (root_path w) tf,
      secret_key = None\<rparr>"

text \<open>
  \<open>render_template(name)\<close>: the loader looks for the template as a regular file of the
  template folder (TemplateNotFound otherwise), Jinja2 renders its source, and the
  text is answered with status 200 as \<open>text/html\<close>. The application and the request
  are ambient in Flask (\<open>current_app\<close>, \<open>request\<close>); here they are the first two
  arguments.
\<close>

definition render_template ::
  "flask_app \<Rightarrow> path \<Rightarrow> string \<Rightarrow> world \<Rightarrow> result \<times> world" where
  "render_template a req name w =
     (case fs w (posixpath_join (template_folder a) name) of
        Some (File src) \<Rightarrow>
          (case jinja w a req src of
             None \<Rightarrow> (Inl TemplateError, w)
           | Some out \<Rightarrow> (Inr \<lparr>status = 200, body = out, mimetype = ''text/html''\<rparr>, w))
      | _ \<Rightarrow> (Inl TemplateNotFound, w))"

text \<open>
  \<open>app.run(host, port, debug)\<close> binds the listener; when the address cannot be bound
  the process ends with exit status 1. Without \<open>debug\<close> the process then serves with
  its application object. With \<open>debug\<close> the reloader is on: the process that has bound
  the listener starts a child that executes the script again, module level included,
  and it is the child, with the application object of its own module level, that
  serves on the inherited listener. \<open>script\<close> is that module level. (The reloader
  starts a new child whenever a source file changes; the model ends with the first.)
\<close>

datatype outcome = Serving flask_app string nat | Exit nat

definition app_run ::
  "flask_app \<Rightarrow> string \<Rightarrow> nat \<Rightarrow> bool \<Rightarrow> (world \<Rightarrow> flask_app \<times> effect list) \<Rightarrow> world
     \<Rightarrow> outcome \<times> effect list" where
  "app_run a host port debug script w =
     (if \<not> port_free w host port then (Exit 1, [Bind host port])
      else if debug then
        (let (child_app, e) = script w in (Serving child_app host port, Bind host port # e))
      else (Serving a host port, [Bind host port]))"



section \<open>app.py\<close>

text \<open>
  The module level, lines 4 and 5. What the process does to its surroundings while it
  starts is recorded as a list of effects.
  \<^verbatim>\<open>
  app = Flask(__name__, static_folder='client/dist', template_folder='client/dist')
  app.secret_key = os.environ.get("SESSION_SECRET")
  \<close>
\<close>

definition module_init :: "world \<Rightarrow> flask_app \<times> effect list" where
  "module_init w =
     (let a = Flask w ''client/dist'' ''client/dist'';
          (secret, e) = os_environ_get ''SESSION_SECRET'' w
      in (a\<lparr>secret_key := secret\<rparr>, e))"

definition app :: "world \<Rightarrow> flask_app" where
  "app w = fst (module_init w)"

text \<open>
  \<^verbatim>\<open>
  def serve(path):
      if path != "" and os.path.exists(app.static_folder + '/' + path):
          return send_from_directory(app.static_folder, path)
      return render_template('index.html')
  \<close>
  The application object is a parameter, and the request being answered is the one
  whose path is \<open>path\<close>; \<open>and\<close> does not evaluate its right operand when the path is
  empty.
\<close>

definition serve :: "flask_app \<Rightarrow> path \<Rightarrow> world \<Rightarrow> result \<times> world" where
  "serve a p w =
     (if p \<noteq> [] then
        (let (ex, w1) = os_path_exists (static_folder a @ ''/'' @ p) w
         in if ex then send_from_directory (static_folder a) p w1
            else render_template a p ''index.html'' w1)
      else render_template a p ''index.html'' w)"


text \<open>
  \<^verbatim>\<open>
  if __name__ == '__main__':
      app.run(host='0.0.0.0', port=5000, debug=True)
  \<close>
  The script run as the main program: the module level, then \<open>app.run\<close>, which with
  \<open>debug=True\<close> has the module level executed once more in the serving child.
\<close>

definition main :: "world \<Rightarrow> outcome \<times> effect list" where
  "main w =
     (let (a, e1) = module_init w;
          (out, e2) = app_run a ''0.0.0.0'' 5000 True module_init w
      in (out, e1 @ e2))"

section \<open>Paths inside and outside the asset root\<close>

text \<open>
  A request path in canonical spelling: relative, every component a name (not empty,
  not \<open>.\<close>, not \<open>..\<close>), like \<open>assets/app.js\<close>.
\<close>

definition plain_comp :: "string \<Rightarrow> bool" where
  "plain_comp c = (c \<noteq> [] \<and> c \<noteq> ''.'' \<and> c \<noteq> ''..'')"

definition canonical :: "path \<Rightarrow> bool" where
  "canonical p = list_all plain_comp (split_slash p)"

text \<open>A relative path none of whose components climbs: it stays under the directory it is joined to.\<close>

definition inside_root :: "path \<Rightarrow> bool" where
  "inside_root q = (\<not> startswith q ''/'' \<and> ''..'' \<notin> set (split_slash q))"

text \<open>
  A request path that leaves the asset root: once normalised it is absolute or begins
  with a \<open>..\<close> component, like \<open>../../etc/passwd\<close>.
\<close>

definition climbs_out :: "path \<Rightarrow> bool" where
  "climbs_out p =
     (p \<noteq> [] \<and>
      (let q = posixpath_normpath p
       in startswith q ''/'' \<or> q = ''..'' \<or> startswith q ''../''))"

section \<open>A concrete deployment\<close>

text \<open>
  The scenario of the specification: app.py in \<open>/srv/app\<close>, the asset root holding
  \<open>index.html\<close> and \<open>assets/app.js\<close>. The file system also answers for a spelling that
  climbs out of the asset root to \<open>/etc/passwd\<close>, for one that leaves the asset root and
  comes back to \<open>index.html\<close>, and for one that reaches \<open>app.js\<close> through a \<open>.\<close>
  component. The renderer is Jinja2 on templates
  without delimiters: the text as it is, less one trailing newline (Jinja2's
  \<open>keep_trailing_newline\<close> is off unless configured); other templates are outside
  this sample renderer.
\<close>

definition index_html :: bytes where
  "index_html = ''<h1>shop</h1>'' @ [CHR 0x0A]"

definition shop_files :: "(path \<times> node) list" where
  "shop_files =
     [(''/srv/app/client/dist'', Dir),
      (''/srv/app/client/dist/index.html'', File index_html),
      (''/srv/app/client/dist/assets'', Dir),
      (''/srv/app/client/dist/assets/app.js'', File ''console.log(1)''),
      (''/srv/app/client/dist/assets/./app.js'', File ''console.log(1)''),
      (''/srv/app/client/dist/../dist/index.html'', File index_html),
      (''/srv/app/client/dist/../../../../etc/passwd'', File ''root:x:0:0''),
      (''/etc/passwd'', File ''root:x:0:0'')]"

definition plain_template :: "bytes \<Rightarrow> bytes option" where
  "plain_template src =
     (if CHR ''{'' \<in> set src \<or> CHR 0x0D \<in> set src then None
      else if src \<noteq> [] \<and> last src = CHR 0x0A then Some (butlast src)
      else Some src)"

definition shop_types :: "string \<Rightarrow> string option" where
  "shop_types name =
     (if startswith (rev name) (rev ''.html'') then Some ''text/html''
      else if startswith (rev name) (rev ''.js'') then Some ''text/javascript''
      else None)"

definition shop :: world where
  "shop = \<lparr>root_path = ''/srv/app'', fs = map_of shop_files, environ = map_of [],
           mimetypes = shop_types, jinja = (\<lambda>a req. plain_template), port_free = (\<lambda>host port. True)\<rparr>"

text \<open>The same deployment with nothing on disk: no asset root, no fallback document.\<close>

definition bare :: world where
  "bare = shop\<lparr>fs := map_of []\<rparr>"

text \<open>The same deployment with a fallback document that does not end in a newline.\<close>

definition tidy :: world where
  "tidy = shop\<lparr>fs := map_of [(''/srv/app/client/dist/index.html'', File ''<h1>shop</h1>'')]\<rparr>"

text \<open>The same deployment started with the secret in its environment.\<close>

definition secret_world :: world where
  "secret_world = shop\<lparr>environ := map_of [(''SESSION_SECRET'', ''s3cret'')]\<rparr>"





section \<open>Splitting, joining and normalising paths\<close>

lemma split_slash_nonempty: "split_slash p \<noteq> []"
  by (induction p) (auto split: list.splits)

lemma join_slash_Cons_Cons: "join_slash ((c # x) # xs) = c # join_slash (x # xs)"
  by (cases xs) simp_all

lemma join_split_slash: "join_slash (split_slash p) = p"
proof (induction p)
  case Nil
  show ?case by simp
next
  case (Cons c cs)
  obtain x xs where sp: "split_slash cs = x # xs"
    using split_slash_nonempty [of cs] by (cases "split_slash cs") auto
  show ?case
    using Cons by (simp add: sp join_slash_Cons_Cons)
qed

lemma split_slash_no_slash: "c \<in> set (split_slash p) \<Longrightarrow> CHR ''/'' \<notin> set c"
proof (induction p arbitrary: c)
  case Nil
  then show ?case by simp
next
  case (Cons d ds)
  obtain x xs where sp: "split_slash ds = x # xs"
    using split_slash_nonempty [of ds] by (cases "split_slash ds") auto
  show ?case
    using Cons.prems Cons.IH [of c] Cons.IH [of x]
    by (auto simp add: sp split: if_splits)
qed

lemma split_slash_single: "CHR ''/'' \<notin> set x \<Longrightarrow> split_slash x = [x]"
  by (induction x) auto

lemma split_slash_append: "CHR ''/'' \<notin> set x \<Longrightarrow> split_slash (x @ CHR ''/'' # r) = x # split_slash r"
  by (induction x) auto

lemma split_join_slash:
  "comps \<noteq> [] \<Longrightarrow> (\<forall>c \<in> set comps. CHR ''/'' \<notin> set c) \<Longrightarrow> split_slash (join_slash comps) = comps"
proof (induction comps rule: join_slash.induct)
  case 1
  then show ?case by simp
next
  case (2 x)
  then show ?case by (simp add: split_slash_single)
next
  case (3 x y ys)
  then show ?case by (simp add: split_slash_append)
qed

lemma normpath_loop_plain:
  "list_all plain_comp comps \<Longrightarrow> normpath_loop n acc comps = acc @ comps"
  by (induction comps arbitrary: acc) (auto simp add: plain_comp_def)

lemma split_slash_hd_empty: "startswith p ''/'' \<Longrightarrow> hd (split_slash p) = []"
  by (cases p) (auto simp add: startswith_def)

lemma canonical_not_abs: "canonical p \<Longrightarrow> \<not> startswith p ''/''"
proof
  assume c: "canonical p" and s: "startswith p ''/''"
  obtain x xs where sp: "split_slash p = x # xs"
    using split_slash_nonempty [of p] by (cases "split_slash p") auto
  from split_slash_hd_empty [OF s] sp have "x = []" by simp
  with c sp show False by (simp add: canonical_def plain_comp_def)
qed

lemma canonical_nonempty: "canonical p \<Longrightarrow> p \<noteq> []"
  by (auto simp add: canonical_def plain_comp_def)

lemma canonical_normpath: "canonical p \<Longrightarrow> posixpath_normpath p = p"
proof -
  assume c: "canonical p"
  have ne: "p \<noteq> []" using c by (rule canonical_nonempty)
  have na: "\<not> startswith p ''/''" using c by (rule canonical_not_abs)
  have na2: "\<not> startswith p ''//''"
    using na by (cases p) (auto simp add: startswith_def)
  have "normpath_loop 0 [] (split_slash p) = split_slash p"
    using c by (simp add: canonical_def normpath_loop_plain)
  then show ?thesis
    using ne na na2 by (simp add: posixpath_normpath_def join_split_slash)
qed

lemma startswith_append: "startswith p pre \<Longrightarrow> p = pre @ drop (length pre) p"
  unfolding startswith_def by (metis append_take_drop_id)

lemma split_slash_dotdot: "startswith p ''../'' \<Longrightarrow> hd (split_slash p) = ''..''"
proof -
  assume "startswith p ''../''"
  from startswith_append [OF this] obtain r where "p = ''../'' @ r" by (rule that)
  then have "p = ''..'' @ CHR ''/'' # r" by simp
  then have "split_slash p = ''..'' # split_slash r"
    using split_slash_append [of "''..''" r] by simp
  then show ?thesis by simp
qed

lemma canonical_safe_join:
  assumes "canonical p" "d \<noteq> []"
  shows "safe_join d p = Some (posixpath_join d p)"
proof -
  obtain x xs where sp: "split_slash p = x # xs"
    using split_slash_nonempty [of p] by (cases "split_slash p") auto
  have x: "x \<noteq> ''..''" using assms(1) sp by (simp add: canonical_def plain_comp_def)
  have a: "\<not> startswith p ''../''"
    using split_slash_dotdot [of p] sp x by auto
  have b: "p \<noteq> ''..''" using sp x by auto
  have n: "posixpath_normpath p = p" using assms(1) by (rule canonical_normpath)
  have c: "\<not> startswith p ''/''" using assms(1) by (rule canonical_not_abs)
  have e: "p \<noteq> []" using assms(1) by (rule canonical_nonempty)
  show ?thesis
    unfolding safe_join_def Let_def using assms(2) n a b c e by simp
qed

lemma normpath_loop_subset: "set (normpath_loop n acc comps) \<subseteq> set acc \<union> set comps"
proof (induction comps arbitrary: acc)
  case Nil
  show ?case by simp
next
  case (Cons c cs)
  have b: "set (butlast acc) \<subseteq> set acc" by (auto dest: in_set_butlastD)
  have "normpath_loop n acc (c # cs) = normpath_loop n acc cs
      \<or> normpath_loop n acc (c # cs) = normpath_loop n (acc @ [c]) cs
      \<or> normpath_loop n acc (c # cs) = normpath_loop n (butlast acc) cs"
    by simp
  then consider (a) "normpath_loop n acc (c # cs) = normpath_loop n acc cs"
    | (b) "normpath_loop n acc (c # cs) = normpath_loop n (acc @ [c]) cs"
    | (c) "normpath_loop n acc (c # cs) = normpath_loop n (butlast acc) cs"
    by blast
  then show ?case
  proof cases
    case a
    then show ?thesis using Cons.IH [of acc] by auto
  next
    case b
    then show ?thesis using Cons.IH [of "acc @ [c]"] by auto
  next
    case c
    then show ?thesis using Cons.IH [of "butlast acc"] b by auto
  qed
qed

lemma normpath_loop_shape:
  "list_all plain_comp rest \<Longrightarrow>
   \<exists>k' rest'. normpath_loop 0 (replicate k ''..'' @ rest) comps = replicate k' ''..'' @ rest'
              \<and> list_all plain_comp rest'"
proof (induction comps arbitrary: k rest)
  case Nil
  then show ?case by auto
next
  case (Cons c cs)
  let ?acc = "replicate k ''..'' @ rest"
  consider (skip) "c = [] \<or> c = ''.''"
    | (plain) "plain_comp c"
    | (up) "c = ''..''"
    by (auto simp add: plain_comp_def)
  then show ?case
  proof cases
    case skip
    then show ?thesis using Cons.IH [OF Cons.prems, of k] by auto
  next
    case plain
    then have "list_all plain_comp (rest @ [c])" using Cons.prems by simp
    from Cons.IH [OF this, of k] show ?thesis
      using plain by (auto simp add: plain_comp_def)
  next
    case up
    show ?thesis
    proof (cases "rest = []")
      case True
      have "normpath_loop 0 ?acc (c # cs) = normpath_loop 0 (replicate (Suc k) ''..'' @ []) cs"
        using up True by (cases k) (simp_all add: replicate_append_same)
      then show ?thesis
        using Cons.IH [of "[]" "Suc k"] by simp
    next
      case False
      then have l: "last ?acc = last rest" and ne: "?acc \<noteq> []" by simp_all
      have "plain_comp (last rest)"
        using False Cons.prems by (simp add: list_all_iff)
      then have "last rest \<noteq> ''..''" by (simp add: plain_comp_def)
      then have "normpath_loop 0 ?acc (c # cs) = normpath_loop 0 (replicate k ''..'' @ butlast rest) cs"
        using up False by (simp add: butlast_append)
      moreover have "list_all plain_comp (butlast rest)"
        using Cons.prems by (auto simp add: list_all_iff dest: in_set_butlastD)
      ultimately show ?thesis
        using Cons.IH [of "butlast rest" k] by simp
    qed
  qed
qed

lemma join_slash_dotdot:
  "join_slash (''..'' # xs) = ''..'' \<or> startswith (join_slash (''..'' # xs)) ''../''"
  by (cases xs) (simp_all add: startswith_def)

lemma safe_join_inside:
  assumes "p \<noteq> []" and "safe_join d p = Some f"
  shows "f = posixpath_join (if d = [] then ''.'' else d) (posixpath_normpath p)
       \<and> inside_root (posixpath_normpath p)"
proof -
  let ?q = "posixpath_normpath p"
  have acc: "\<not> startswith ?q ''/''" "?q \<noteq> ''..''" "\<not> startswith ?q ''../''"
    and f: "f = posixpath_join (if d = [] then ''.'' else d) ?q"
    using assms by (auto simp add: safe_join_def Let_def split: if_splits)
  have rel: "\<not> startswith p ''/''"
  proof
    assume "startswith p ''/''"
    then have "startswith ?q ''/''"
      using assms(1) by (auto simp add: posixpath_normpath_def Let_def startswith_def)
    with acc(1) show False by simp
  qed
  then have rel2: "\<not> startswith p ''//''"
    by (cases p) (auto simp add: startswith_def)
  obtain k rest where sh: "normpath_loop 0 [] (split_slash p) = replicate k ''..'' @ rest"
    and pl: "list_all plain_comp rest"
    using normpath_loop_shape [of "[]" 0 "split_slash p"] by auto
  have q: "?q = (if join_slash (replicate k ''..'' @ rest) = [] then ''.''
                 else join_slash (replicate k ''..'' @ rest))"
    using assms(1) rel rel2 sh by (simp add: posixpath_normpath_def Let_def)
  have k0: "k = 0"
  proof (rule ccontr)
    assume "k \<noteq> 0"
    then obtain j where "k = Suc j" by (cases k) auto
    then have c: "replicate k ''..'' @ rest = ''..'' # (replicate j ''..'' @ rest)" by simp
    have "join_slash (''..'' # (replicate j ''..'' @ rest)) \<noteq> []"
      by (cases "replicate j ''..'' @ rest") simp_all
    then have "?q = join_slash (''..'' # (replicate j ''..'' @ rest))"
      using q c by simp
    then show False
      using join_slash_dotdot [of "replicate j ''..'' @ rest"] acc by simp
  qed
  have noslash: "\<forall>c \<in> set rest. CHR ''/'' \<notin> set c"
  proof
    fix c assume "c \<in> set rest"
    then have "c \<in> set (normpath_loop 0 [] (split_slash p))" using sh k0 by simp
    then have "c \<in> set (split_slash p)"
      using normpath_loop_subset [of 0 "[]" "split_slash p"] by auto
    then show "CHR ''/'' \<notin> set c" by (rule split_slash_no_slash)
  qed
  have "''..'' \<notin> set (split_slash ?q)"
  proof (cases "rest = []")
    case True
    then show ?thesis using q k0 by simp
  next
    case False
    then have "join_slash rest \<noteq> []"
      using pl by (cases rest rule: join_slash.cases) (auto simp add: plain_comp_def)
    then have "?q = join_slash rest" using q k0 by simp
    then have "split_slash ?q = rest"
      using split_join_slash [OF False noslash] by simp
    then show ?thesis
      using pl by (auto simp add: list_all_iff plain_comp_def)
  qed
  with acc(1) f show ?thesis by (simp add: inside_root_def)
qed

section \<open>The calls of app.py only read\<close>





lemma render_template_not_404: "status_of (fst (render_template a r n w)) \<noteq> 404"
  by (simp add: render_template_def split: option.splits node.splits)

lemma main_eq:
  "main w =
     (if port_free w ''0.0.0.0'' 5000
      then (Serving (app w) ''0.0.0.0'' 5000,
            [EnvGet ''SESSION_SECRET'', Bind ''0.0.0.0'' 5000, EnvGet ''SESSION_SECRET''])
      else (Exit 1, [EnvGet ''SESSION_SECRET'', Bind ''0.0.0.0'' 5000]))"
  by (simp add: main_def module_init_def app_def os_environ_get_def app_run_def)

lemma app_eq:
  "app w = \<lparr>static_folder = posixpath_join (root_path w) ''client/dist'',
            template_folder = posixpath_join (root_path w) ''client/dist'',
            secret_key = environ w ''SESSION_SECRET''\<rparr>"
  by (simp add: app_def module_init_def os_environ_get_def Flask_def)

lemma app_static_last:
  "static_folder (app w) \<noteq> [] \<and> last (static_folder (app w)) = CHR ''t''"
  by (simp add: app_eq posixpath_join_def startswith_def)

lemma app_template: "template_folder (app w) = static_folder (app w)"
  by (simp add: app_eq)

lemma join_static:
  "\<not> startswith q ''/'' \<Longrightarrow>
   posixpath_join (static_folder (app w)) q = static_folder (app w) @ ''/'' @ q"
  using app_static_last [of w] by (simp add: posixpath_join_def)

lemma takeWhile_stop: "\<not> P y \<Longrightarrow> takeWhile P (xs @ y # ys) = takeWhile P xs"
  by (induction xs) auto

lemma basename_join: "posixpath_basename (d @ ''/'' @ p) = posixpath_basename p"
  by (simp add: posixpath_basename_def takeWhile_stop)

lemma serve_cases:
  "fst (serve a p w) =
     (if p = [] \<or> fs w (static_folder a @ ''/'' @ p) = None
      then fst (render_template a p ''index.html'' w)
      else fst (send_from_directory (static_folder a) p w))"
  by (simp add: serve_def os_path_exists_def)

lemma serve_environ: "fst (serve a p (w\<lparr>environ := e\<rparr>)) = fst (serve a p w)"
  by (simp add: serve_def os_path_exists_def send_from_directory_def os_path_isfile_def
      send_file_def render_template_def split: option.splits node.splits)

lemma serve_sends_asset:
  assumes "canonical p" and "fs w (static_folder (app w) @ ''/'' @ p) = Some (File b)"
  shows "fst (serve (app w) p w) =
           Inr \<lparr>status = 200, body = b,
                mimetype = (case mimetypes w (posixpath_basename p) of
                              None \<Rightarrow> ''application/octet-stream''
                            | Some t \<Rightarrow> t)\<rparr>"
proof -
  have ne: "p \<noteq> []" using assms(1) by (rule canonical_nonempty)
  have rel: "\<not> startswith p ''/''" using assms(1) by (rule canonical_not_abs)
  have sj: "safe_join (static_folder (app w)) p = Some (static_folder (app w) @ ''/'' @ p)"
    using canonical_safe_join [OF assms(1), of "static_folder (app w)"]
      app_static_last [of w] join_static [OF rel, of w] by simp
  have "fst (serve (app w) p w) = fst (send_from_directory (static_folder (app w)) p w)"
    using ne assms(2) by (simp add: serve_cases)
  also have "\<dots> = fst (send_file (static_folder (app w) @ ''/'' @ p) w)"
    using assms(2) by (simp add: send_from_directory_def sj os_path_isfile_def)
  also have "\<dots> = Inr \<lparr>status = 200, body = b,
                mimetype = (case mimetypes w (posixpath_basename p) of
                              None \<Rightarrow> ''application/octet-stream''
                            | Some t \<Rightarrow> t)\<rparr>"
    using assms(2) basename_join [of "static_folder (app w)" p]
    by (simp add: send_file_def)
  finally show ?thesis .
qed

lemma canonical_stays: "canonical p \<Longrightarrow> \<not> climbs_out p \<and> posixpath_normpath p = p"
proof -
  assume c: "canonical p"
  obtain x xs where sp: "split_slash p = x # xs"
    using split_slash_nonempty [of p] by (cases "split_slash p") auto
  have x: "x \<noteq> ''..''" using c sp by (simp add: canonical_def plain_comp_def)
  have a: "\<not> startswith p ''../''"
    using split_slash_dotdot [of p] sp x by auto
  have b: "p \<noteq> ''..''" using sp x by auto
  have n: "posixpath_normpath p = p" using c by (rule canonical_normpath)
  have r: "\<not> startswith p ''/''" using c by (rule canonical_not_abs)
  show ?thesis
    using n a b r by (simp add: climbs_out_def)
qed

lemma serve_sends_normal:
  assumes "p \<noteq> []" and "fs w (static_folder (app w) @ ''/'' @ p) \<noteq> None"
    and "\<not> climbs_out p"
    and "fs w (static_folder (app w) @ ''/'' @ posixpath_normpath p) = Some (File b)"
  shows "fst (serve (app w) p w) =
           Inr \<lparr>status = 200, body = b,
                mimetype = (case mimetypes w (posixpath_basename (posixpath_normpath p)) of
                              None \<Rightarrow> ''application/octet-stream''
                            | Some t \<Rightarrow> t)\<rparr>"
proof -
  let ?q = "posixpath_normpath p"
  have acc: "\<not> startswith ?q ''/''" "?q \<noteq> ''..''" "\<not> startswith ?q ''../''"
    using assms(1,3) by (simp_all add: climbs_out_def Let_def)
  have sj: "safe_join (static_folder (app w)) p = Some (static_folder (app w) @ ''/'' @ ?q)"
    using assms(1) acc app_static_last [of w] join_static [OF acc(1), of w]
    by (simp add: safe_join_def Let_def)
  have "fst (serve (app w) p w) = fst (send_from_directory (static_folder (app w)) p w)"
    using assms(1,2) by (auto simp add: serve_cases)
  also have "\<dots> = fst (send_file (static_folder (app w) @ ''/'' @ ?q) w)"
    using assms(4) by (simp add: send_from_directory_def sj os_path_isfile_def)
  also have "\<dots> = Inr \<lparr>status = 200, body = b,
                mimetype = (case mimetypes w (posixpath_basename ?q) of
                              None \<Rightarrow> ''application/octet-stream''
                            | Some t \<Rightarrow> t)\<rparr>"
    using assms(4) basename_join [of "static_folder (app w)" ?q]
    by (simp add: send_file_def)
  finally show ?thesis .
qed

lemma serve_refuses_climber:
  assumes "climbs_out p" and "fs w (static_folder a @ ''/'' @ p) \<noteq> None"
  shows "fst (serve a p w) = Inl NotFound"
proof -
  have ne: "p \<noteq> []" using assms(1) by (simp add: climbs_out_def)
  have "safe_join (static_folder a) p = None"
    using assms(1) by (auto simp add: climbs_out_def safe_join_def Let_def)
  then show ?thesis
    using ne assms(2) by (auto simp add: serve_cases send_from_directory_def)
qed




section \<open>The fallback response\<close>

text \<open>
  Claim C1, as amended. For every request path that is empty or at which
  \<open>os.path.exists\<close> finds nothing under the asset root, \<open>serve\<close> is
  \<open>render_template('index.html')\<close>: the status is never 404, and when \<open>index.html\<close> is
  a regular file of the template folder that Jinja2 renders, the response has status
  200 and its body is the rendered text (the rendering, which need not be the bytes of
  the file).
\<close>

theorem serve_fallback:
  assumes "p = [] \<or> fs w (static_folder a @ ''/'' @ p) = None"
  shows "serve a p w = render_template a p ''index.html'' w
       \<and> status_of (fst (serve a p w)) \<noteq> 404
       \<and> (\<forall>src out. fs w (posixpath_join (template_folder a) ''index.html'') = Some (File src)
              \<and> jinja w a p src = Some out
            \<longrightarrow> fst (serve a p w) = Inr \<lparr>status = 200, body = out, mimetype = ''text/html''\<rparr>)"
proof -
  have eq: "serve a p w = render_template a p ''index.html'' w"
    using assms by (auto simp add: serve_def os_path_exists_def)
  show ?thesis
    unfolding eq using render_template_not_404 [of a p "''index.html''" w]
    by (simp add: render_template_def)
qed

theorem serve_fallback_witness:
  "fs shop (static_folder (app shop) @ ''/'' @ ''dashboard/settings'') = None
   \<and> serve (app shop) ''dashboard/settings'' shop = render_template (app shop) ''dashboard/settings'' ''index.html'' shop
   \<and> status_of (fst (serve (app shop) ''dashboard/settings'' shop)) \<noteq> 404
   \<and> fst (serve (app shop) ''dashboard/settings'' shop)
       = Inr \<lparr>status = 200, body = ''<h1>shop</h1>'', mimetype = ''text/html''\<rparr>"
proof -
  have h: "fs shop (static_folder (app shop) @ ''/'' @ ''dashboard/settings'') = None"
    by code_simp
  have i: "fs shop (posixpath_join (template_folder (app shop)) ''index.html'')
             = Some (File index_html)"
    by code_simp
  have j: "jinja shop (app shop) ''dashboard/settings'' index_html = Some ''<h1>shop</h1>''"
    by code_simp
  from serve_fallback [where p = "''dashboard/settings''" and w = shop and a = "app shop"] h i j
  show ?thesis by blast
qed

text \<open>
  The claim as stated fails where rendering changes the document: the fallback document of
  the deployment ends in a newline, the body of the response does not.
\<close>

theorem serve_fallback_counterexample:
  "fs shop ''/srv/app/client/dist/dashboard'' = None
   \<and> fs shop ''/srv/app/client/dist/index.html'' = Some (File (''<h1>shop</h1>'' @ [CHR 0x0A]))
   \<and> fst (serve (app shop) ''dashboard'' shop)
       = Inr \<lparr>status = 200, body = ''<h1>shop</h1>'', mimetype = ''text/html''\<rparr>
   \<and> fst (serve (app shop) ''dashboard'' shop)
       \<noteq> Inr \<lparr>status = 200, body = ''<h1>shop</h1>'' @ [CHR 0x0A], mimetype = ''text/html''\<rparr>"
  by code_simp

section \<open>Serving an asset\<close>

text \<open>
  Claim C2, as amended. For every non-empty request path at which \<open>os.path.exists\<close>
  finds something, whose normal form stays inside the asset root and names a regular
  file there, \<open>serve\<close> answers status 200 with the bytes of the file at the normalised
  path; the content type is the one the mimetypes table gives the file's name,
  \<open>application/octet-stream\<close> when it gives none. A path in canonical spelling is its
  own normal form, so it is answered with the file it names. A path whose normal form
  leaves the asset root is answered 404 when something exists at it, also when what it
  names is a file under the asset root.
\<close>

theorem serve_existing_asset:
  "(p \<noteq> [] \<and> fs w (static_folder (app w) @ ''/'' @ p) \<noteq> None \<and> \<not> climbs_out p
      \<and> fs w (static_folder (app w) @ ''/'' @ posixpath_normpath p) = Some (File b)
    \<longrightarrow> fst (serve (app w) p w) =
           Inr \<lparr>status = 200, body = b,
                mimetype = (case mimetypes w (posixpath_basename (posixpath_normpath p)) of
                              None \<Rightarrow> ''application/octet-stream''
                            | Some t \<Rightarrow> t)\<rparr>
        \<and> status_of (fst (serve (app w) p w)) = 200)
   \<and> (canonical p \<longrightarrow> p \<noteq> [] \<and> \<not> climbs_out p \<and> posixpath_normpath p = p)
   \<and> (climbs_out p \<and> fs w (static_folder (app w) @ ''/'' @ p) \<noteq> None
        \<longrightarrow> fst (serve (app w) p w) = Inl NotFound
            \<and> status_of (fst (serve (app w) p w)) = 404)"
proof (intro conjI impI)
  assume h: "p \<noteq> [] \<and> fs w (static_folder (app w) @ ''/'' @ p) \<noteq> None \<and> \<not> climbs_out p
      \<and> fs w (static_folder (app w) @ ''/'' @ posixpath_normpath p) = Some (File b)"
  then have r: "fst (serve (app w) p w) =
           Inr \<lparr>status = 200, body = b,
                mimetype = (case mimetypes w (posixpath_basename (posixpath_normpath p)) of
                              None \<Rightarrow> ''application/octet-stream''
                            | Some t \<Rightarrow> t)\<rparr>"
    using serve_sends_normal [of p w b] by blast
  then show "fst (serve (app w) p w) =
           Inr \<lparr>status = 200, body = b,
                mimetype = (case mimetypes w (posixpath_basename (posixpath_normpath p)) of
                              None \<Rightarrow> ''application/octet-stream''
                            | Some t \<Rightarrow> t)\<rparr>" .
  from r show "status_of (fst (serve (app w) p w)) = 200" by simp
next
  assume c: "canonical p"
  then show "p \<noteq> []" by (rule canonical_nonempty)
  from canonical_stays [OF c] show "\<not> climbs_out p" and "posixpath_normpath p = p"
    by simp_all
next
  assume h: "climbs_out p \<and> fs w (static_folder (app w) @ ''/'' @ p) \<noteq> None"
  then have r: "fst (serve (app w) p w) = Inl NotFound"
    using serve_refuses_climber [of p w "app w"] by blast
  then show "fst (serve (app w) p w) = Inl NotFound" .
  from r show "status_of (fst (serve (app w) p w)) = 404" by simp
qed

theorem serve_existing_asset_witness:
  "fs shop (static_folder (app shop) @ ''/'' @ ''assets/./app.js'') = Some (File ''console.log(1)'')
   \<and> posixpath_normpath ''assets/./app.js'' = ''assets/app.js''
   \<and> fs shop (static_folder (app shop) @ ''/'' @ ''assets/app.js'') = Some (File ''console.log(1)'')
   \<and> fst (serve (app shop) ''assets/./app.js'' shop)
       = Inr \<lparr>status = 200, body = ''console.log(1)'', mimetype = ''text/javascript''\<rparr>
   \<and> canonical ''assets/app.js''
   \<and> posixpath_normpath ''assets/app.js'' = ''assets/app.js''
   \<and> climbs_out ''../dist/index.html''
   \<and> fst (serve (app shop) ''../dist/index.html'' shop) = Inl NotFound"
proof -
  have e: "fs shop (static_folder (app shop) @ ''/'' @ ''assets/./app.js'')
             = Some (File ''console.log(1)'')"
    by code_simp
  have n: "posixpath_normpath ''assets/./app.js'' = ''assets/app.js''" by code_simp
  have s: "\<not> climbs_out ''assets/./app.js''" by code_simp
  have f: "fs shop (static_folder (app shop) @ ''/'' @ ''assets/app.js'')
             = Some (File ''console.log(1)'')"
    by code_simp
  have m: "mimetypes shop (posixpath_basename ''assets/app.js'') = Some ''text/javascript''"
    by code_simp
  have c: "canonical ''assets/app.js''" by code_simp
  have k: "climbs_out ''../dist/index.html''" by code_simp
  have x: "fs shop (static_folder (app shop) @ ''/'' @ ''../dist/index.html'') \<noteq> None"
    by code_simp
  from serve_existing_asset [of "''assets/./app.js''" shop "''console.log(1)''"] e n s f m
  have 1: "fst (serve (app shop) ''assets/./app.js'' shop)
       = Inr \<lparr>status = 200, body = ''console.log(1)'', mimetype = ''text/javascript''\<rparr>"
    by simp
  from serve_existing_asset [of "''assets/app.js''" shop "''console.log(1)''"] c
  have 2: "posixpath_normpath ''assets/app.js'' = ''assets/app.js''" by blast
  from serve_existing_asset [of "''../dist/index.html''" shop "[]"] k x
  have 3: "fst (serve (app shop) ''../dist/index.html'' shop) = Inl NotFound" by blast
  from e n f 1 c 2 k 3 show ?thesis by blast
qed

text \<open>
  The claim as stated fails at a path that names the fallback document, a file under
  the asset root, by way of \<open>..\<close>: the file exists at the path, and the response is a
  404 instead of its bytes.
\<close>

theorem serve_existing_asset_counterexample:
  "fs shop (static_folder (app shop) @ ''/'' @ ''../dist/index.html'')
     = Some (File (''<h1>shop</h1>'' @ [CHR 0x0A]))
   \<and> fs shop ''/srv/app/client/dist/index.html'' = Some (File (''<h1>shop</h1>'' @ [CHR 0x0A]))
   \<and> fst (serve (app shop) ''../dist/index.html'' shop) = Inl NotFound
   \<and> status_of (fst (serve (app shop) ''../dist/index.html'' shop)) = 404"
  by code_simp

section \<open>Paths that leave the asset root\<close>

text \<open>
  Claim C3, as amended. Whatever the request path, the response is the fallback
  response, a 404, or the file that lies at the normalised path under the asset root,
  a relative path without a \<open>..\<close> component: content from outside the asset root is
  never returned. A request path that leaves the asset root gets the fallback response
  when \<open>os.path.exists\<close> finds nothing at the unchecked concatenation, and a 404 (from
  \<open>send_from_directory\<close>) when it finds something.
\<close>

theorem serve_traversal:
  "(fst (serve (app w) p w) = fst (render_template (app w) p ''index.html'' w)
    \<or> fst (serve (app w) p w) = Inl NotFound
    \<or> (inside_root (posixpath_normpath p)
        \<and> fst (serve (app w) p w)
            = fst (send_file (static_folder (app w) @ ''/'' @ posixpath_normpath p) w)))
   \<and> (climbs_out p \<longrightarrow>
        fst (serve (app w) p w) =
          (if fs w (static_folder (app w) @ ''/'' @ p) = None
           then fst (render_template (app w) p ''index.html'' w)
           else Inl NotFound))"
proof
  show "fst (serve (app w) p w) = fst (render_template (app w) p ''index.html'' w)
    \<or> fst (serve (app w) p w) = Inl NotFound
    \<or> (inside_root (posixpath_normpath p)
        \<and> fst (serve (app w) p w)
            = fst (send_file (static_folder (app w) @ ''/'' @ posixpath_normpath p) w))"
  proof (cases "p = [] \<or> fs w (static_folder (app w) @ ''/'' @ p) = None")
    case True
    then show ?thesis by (simp add: serve_cases)
  next
    case False
    then have ne: "p \<noteq> []" by simp
    have s: "fst (serve (app w) p w) = fst (send_from_directory (static_folder (app w)) p w)"
      using False by (auto simp add: serve_cases)
    show ?thesis
    proof (cases "safe_join (static_folder (app w)) p")
      case None
      then show ?thesis by (simp add: s send_from_directory_def)
    next
      case (Some f)
      from safe_join_inside [OF ne Some] app_static_last [of w]
      have f: "f = posixpath_join (static_folder (app w)) (posixpath_normpath p)"
        and ins: "inside_root (posixpath_normpath p)" by simp_all
      have "f = static_folder (app w) @ ''/'' @ posixpath_normpath p"
        using f ins join_static [of "posixpath_normpath p" w] by (simp add: inside_root_def)
      then show ?thesis
        using ins by (simp add: s send_from_directory_def Some os_path_isfile_def)
    qed
  qed
next
  show "climbs_out p \<longrightarrow>
        fst (serve (app w) p w) =
          (if fs w (static_folder (app w) @ ''/'' @ p) = None
           then fst (render_template (app w) p ''index.html'' w)
           else Inl NotFound)"
  proof
    assume c: "climbs_out p"
    then have ne: "p \<noteq> []" by (simp add: climbs_out_def)
    have "safe_join (static_folder (app w)) p = None"
      using c by (auto simp add: climbs_out_def safe_join_def Let_def)
    then show "fst (serve (app w) p w) =
          (if fs w (static_folder (app w) @ ''/'' @ p) = None
           then fst (render_template (app w) p ''index.html'' w)
           else Inl NotFound)"
      using ne by (simp add: serve_cases send_from_directory_def)
  qed
qed

theorem serve_traversal_witness:
  "climbs_out ''../../secret.txt''
   \<and> fs shop (static_folder (app shop) @ ''/'' @ ''../../secret.txt'') = None
   \<and> fst (serve (app shop) ''../../secret.txt'' shop)
       = Inr \<lparr>status = 200, body = ''<h1>shop</h1>'', mimetype = ''text/html''\<rparr>"
proof -
  have c: "climbs_out ''../../secret.txt''" by code_simp
  have f: "fs shop (static_folder (app shop) @ ''/'' @ ''../../secret.txt'') = None"
    by code_simp
  have r: "fst (render_template (app shop) ''../../secret.txt'' ''index.html'' shop)
             = Inr \<lparr>status = 200, body = ''<h1>shop</h1>'', mimetype = ''text/html''\<rparr>"
    by code_simp
  from serve_traversal [of shop "''../../secret.txt''"] c f r show ?thesis by simp
qed

text \<open>
  The claim as stated fails where the path that leaves the asset root names something
  that exists: the response is a 404, not the fallback response.
\<close>

theorem serve_traversal_counterexample:
  "fs shop (static_folder (app shop) @ ''/'' @ ''../../../../etc/passwd'') = Some (File ''root:x:0:0'')
   \<and> fst (serve (app shop) ''../../../../etc/passwd'' shop) = Inl NotFound
   \<and> fst (render_template (app shop) ''../../../../etc/passwd'' ''index.html'' shop)
       = Inr \<lparr>status = 200, body = ''<h1>shop</h1>'', mimetype = ''text/html''\<rparr>"
  by code_simp

section \<open>Start-up\<close>

text \<open>
  Claim C4, as amended. Start-up does not look at the asset root or at the fallback
  document: its outcome and its effects are the same whatever the file system holds.
  It reads the secret, then binds 0.0.0.0:5000; it serves when the address can be
  bound, also with the asset root missing (the serving child of the reloader then
  reads the secret again), and exits with status 1 only when the address cannot be
  bound.
\<close>

theorem main_ignores_files:
  "main (w\<lparr>fs := f\<rparr>) = main w
   \<and> snd (main w) =
       (if port_free w ''0.0.0.0'' 5000
        then [EnvGet ''SESSION_SECRET'', Bind ''0.0.0.0'' 5000, EnvGet ''SESSION_SECRET'']
        else [EnvGet ''SESSION_SECRET'', Bind ''0.0.0.0'' 5000])
   \<and> fst (main w) =
       (if port_free w ''0.0.0.0'' 5000 then Serving (app w) ''0.0.0.0'' 5000 else Exit 1)"
  by (simp add: main_eq app_eq)

theorem main_ignores_files_witness:
  "main (shop\<lparr>fs := map_of []\<rparr>) = main shop
   \<and> snd (main shop)
       = [EnvGet ''SESSION_SECRET'', Bind ''0.0.0.0'' 5000, EnvGet ''SESSION_SECRET'']
   \<and> fst (main shop) =
       Serving \<lparr>static_folder = ''/srv/app/client/dist'',
                template_folder = ''/srv/app/client/dist'',
                secret_key = None\<rparr> ''0.0.0.0'' 5000"
proof -
  have p: "port_free shop ''0.0.0.0'' 5000" by code_simp
  have a: "app shop = \<lparr>static_folder = ''/srv/app/client/dist'',
                        template_folder = ''/srv/app/client/dist'',
                        secret_key = None\<rparr>"
    by code_simp
  from main_ignores_files [where w = shop and f = "map_of []"] p a show ?thesis by simp
qed

text \<open>
  The claim as stated fails in the deployment with nothing on disk: neither the asset
  root nor the fallback document exists, and the process binds its listener and serves.
\<close>

theorem main_ignores_files_counterexample:
  "fs bare ''/srv/app/client/dist'' = None
   \<and> fs bare ''/srv/app/client/dist/index.html'' = None
   \<and> main bare =
       (Serving \<lparr>static_folder = ''/srv/app/client/dist'',
                 template_folder = ''/srv/app/client/dist'',
                 secret_key = None\<rparr> ''0.0.0.0'' 5000,
        [EnvGet ''SESSION_SECRET'', Bind ''0.0.0.0'' 5000, EnvGet ''SESSION_SECRET''])"
  by code_simp

text \<open>
  Claim C8, as amended. Each execution of the module level reads \<open>SESSION_SECRET\<close>
  once, and what it reads is the secret of the application: the value of the
  variable, unset when the variable is absent. Because \<open>app.run\<close> is called with
  \<open>debug=True\<close>, a start-up that binds its listener executes the module level twice, in
  the process that binds and in the reloader's child that serves: the variable is read
  twice, once before and once after the bind. A start-up that cannot bind has read it
  once. Absence of the variable does not end start-up: when the address can be bound
  the process serves, the secret being unset. Answering a request does not consult the
  environment.
\<close>

theorem main_reads_secret:
  "secret_key (app w) = environ w ''SESSION_SECRET''
   \<and> snd (module_init w) = [EnvGet ''SESSION_SECRET'']
   \<and> count_list (snd (main w)) (EnvGet ''SESSION_SECRET'')
       = (if port_free w ''0.0.0.0'' 5000 then 2 else 1)
   \<and> (port_free w ''0.0.0.0'' 5000 \<longrightarrow>
        main w = (Serving (app w) ''0.0.0.0'' 5000,
                  [EnvGet ''SESSION_SECRET'', Bind ''0.0.0.0'' 5000, EnvGet ''SESSION_SECRET'']))
   \<and> (environ w ''SESSION_SECRET'' = None \<and> port_free w ''0.0.0.0'' 5000 \<longrightarrow>
        fst (main w) = Serving (app w) ''0.0.0.0'' 5000 \<and> secret_key (app w) = None)
   \<and> fst (serve a p (w\<lparr>environ := e\<rparr>)) = fst (serve a p w)"
proof -
  have 1: "secret_key (app w) = environ w ''SESSION_SECRET''" by (simp add: app_eq)
  have 2: "snd (module_init w) = [EnvGet ''SESSION_SECRET'']"
    by (simp add: module_init_def os_environ_get_def)
  have 3: "count_list (snd (main w)) (EnvGet ''SESSION_SECRET'')
       = (if port_free w ''0.0.0.0'' 5000 then 2 else 1)"
    by (simp add: main_eq)
  show ?thesis
    using 1 2 3 by (simp add: main_eq serve_environ)
qed

theorem main_reads_secret_witness:
  "environ shop ''SESSION_SECRET'' = None
   \<and> port_free shop ''0.0.0.0'' 5000
   \<and> fst (main shop) = Serving (app shop) ''0.0.0.0'' 5000
   \<and> secret_key (app shop) = None
   \<and> environ secret_world ''SESSION_SECRET'' = Some ''s3cret''
   \<and> secret_key (app secret_world) = Some ''s3cret''
   \<and> fst (main secret_world) = Serving (app secret_world) ''0.0.0.0'' 5000
   \<and> fst (serve (app shop) ''assets/app.js'' secret_world)
       = fst (serve (app shop) ''assets/app.js'' shop)"
proof -
  have e: "environ shop ''SESSION_SECRET'' = None" by code_simp
  have p: "port_free shop ''0.0.0.0'' 5000" by code_simp
  have e': "environ secret_world ''SESSION_SECRET'' = Some ''s3cret''" by code_simp
  have p': "port_free secret_world ''0.0.0.0'' 5000" by code_simp
  have 1: "fst (main shop) = Serving (app shop) ''0.0.0.0'' 5000 \<and> secret_key (app shop) = None"
    using main_reads_secret [of shop] e p by blast
  have 2: "secret_key (app secret_world) = Some ''s3cret''"
    using main_reads_secret [of secret_world] e' by simp
  have 3: "fst (main secret_world) = Serving (app secret_world) ''0.0.0.0'' 5000"
    using main_reads_secret [of secret_world] p' by simp
  have 4: "fst (serve (app shop) ''assets/app.js'' secret_world)
       = fst (serve (app shop) ''assets/app.js'' shop)"
    using main_reads_secret [where w = shop and a = "app shop" and p = "''assets/app.js''"
        and e = "map_of [(''SESSION_SECRET'', ''s3cret'')]"]
    by (simp add: secret_world_def)
  from e p 1 e' 2 3 4 show ?thesis by blast
qed

text \<open>
  The claim as stated fails in the deployment: by the time it serves, start-up has read
  the variable twice.
\<close>

theorem main_reads_secret_counterexample:
  "port_free shop ''0.0.0.0'' 5000
   \<and> snd (main shop)
       = [EnvGet ''SESSION_SECRET'', Bind ''0.0.0.0'' 5000, EnvGet ''SESSION_SECRET'']
   \<and> count_list (snd (main shop)) (EnvGet ''SESSION_SECRET'') = 2"
  by code_simp

section \<open>Directories, the empty path, repeated requests, methods\<close>




text \<open>
  Claim C6, as amended. When \<open>index.html\<close> is a regular file of the asset root, the
  empty path is answered with the Jinja2 rendering of \<open>index.html\<close>, status 200 and
  \<open>text/html\<close>, or with a 500 when rendering raises; the path \<open>index.html\<close> is
  answered with status 200, the bytes of the file and the content type guessed from
  its name. The two answers agree in status, body and content type exactly when
  rendering succeeds and leaves the document as it is and the guessed type is
  \<open>text/html\<close>. (A response here is its status, body and content type; the headers
  that sending a file adds are not compared.)
\<close>

theorem serve_empty_and_index:
  assumes "fs w (static_folder (app w) @ ''/index.html'') = Some (File src)"
  shows "fst (serve (app w) [] w) =
           (case jinja w (app w) [] src of
              None \<Rightarrow> Inl TemplateError
            | Some out \<Rightarrow> Inr \<lparr>status = 200, body = out, mimetype = ''text/html''\<rparr>)
       \<and> fst (serve (app w) ''index.html'' w) =
           Inr \<lparr>status = 200, body = src,
                mimetype = (case mimetypes w ''index.html'' of
                              None \<Rightarrow> ''application/octet-stream''
                            | Some t \<Rightarrow> t)\<rparr>
       \<and> (fst (serve (app w) [] w) = fst (serve (app w) ''index.html'' w))
           = (jinja w (app w) [] src = Some src \<and> mimetypes w ''index.html'' = Some ''text/html'')"
proof -
  have t: "posixpath_join (template_folder (app w)) ''index.html''
             = static_folder (app w) @ ''/index.html''"
    using join_static [of "''index.html''" w] by (simp add: app_template startswith_def)
  have a: "fst (serve (app w) [] w) =
           (case jinja w (app w) [] src of
              None \<Rightarrow> Inl TemplateError
            | Some out \<Rightarrow> Inr \<lparr>status = 200, body = out, mimetype = ''text/html''\<rparr>)"
    using assms by (simp add: serve_cases render_template_def t split: option.splits)
  have c: "canonical ''index.html''" by code_simp
  have b: "fst (serve (app w) ''index.html'' w) =
           Inr \<lparr>status = 200, body = src,
                mimetype = (case mimetypes w ''index.html'' of
                              None \<Rightarrow> ''application/octet-stream''
                            | Some t \<Rightarrow> t)\<rparr>"
    using serve_sends_asset [OF c, of w src] assms
    by (simp add: posixpath_basename_def)
  show ?thesis
    unfolding a b by (auto split: option.splits)
qed

theorem serve_empty_and_index_witness:
  "fs tidy (static_folder (app tidy) @ ''/index.html'') = Some (File ''<h1>shop</h1>'')
   \<and> fst (serve (app tidy) [] tidy) = fst (serve (app tidy) ''index.html'' tidy)
   \<and> fst (serve (app tidy) ''index.html'' tidy)
       = Inr \<lparr>status = 200, body = ''<h1>shop</h1>'', mimetype = ''text/html''\<rparr>"
proof -
  have f: "fs tidy (static_folder (app tidy) @ ''/index.html'') = Some (File ''<h1>shop</h1>'')"
    by code_simp
  have j: "jinja tidy (app tidy) [] ''<h1>shop</h1>'' = Some ''<h1>shop</h1>''" by code_simp
  have m: "mimetypes tidy ''index.html'' = Some ''text/html''" by code_simp
  from serve_empty_and_index [OF f] f j m show ?thesis by simp
qed

text \<open>
  The claim as stated fails in the deployment whose fallback document ends in a
  newline: the empty path is answered with the rendering, the path \<open>index.html\<close>
  with the bytes of the file.
\<close>

theorem serve_empty_and_index_counterexample:
  "fst (serve (app shop) [] shop)
     = Inr \<lparr>status = 200, body = ''<h1>shop</h1>'', mimetype = ''text/html''\<rparr>
   \<and> fst (serve (app shop) ''index.html'' shop)
     = Inr \<lparr>status = 200, body = ''<h1>shop</h1>'' @ [CHR 0x0A], mimetype = ''text/html''\<rparr>
   \<and> fst (serve (app shop) [] shop) \<noteq> fst (serve (app shop) ''index.html'' shop)"
  by code_simp






end
